theory Spec2Isabelle
  imports Main
begin

section \<open>Values and errors of the client (ksql/api.py)\<close>

text \<open>
  A decoded JSON document, as Python's json module hands it to the client: None, bool,
  int, float, str, list and dict. Strings are lists of code points below 256. A float is
  carried by the text of its repr, the only thing the client ever reads of it. A dict is
  the list of its items in insertion order.
\<close>

datatype json =
    JNull
  | JBool bool
  | JInt int
  | JFloat string
  | JStr string
  | JList "json list"
  | JDict "(string \<times> json) list"

text \<open>
  The exceptions that can leave the client. InvalidQueryError and CreateError come from
  ksql.errors, Timeout from requests; KeyError, IndexError, TypeError and ValueError are
  Python's own. OtherError stands for any other exception of a collaborator.
\<close>

datatype error =
    InvalidQueryError string
  | CreateError json
  | ValueError string
  | KeyError string
  | IndexError
  | TypeError
  | Timeout
  | OtherError string

definition bind_err :: "error + 'a \<Rightarrow> ('a \<Rightarrow> error + 'b) \<Rightarrow> error + 'b" where
  "bind_err m f = (case m of Inl e \<Rightarrow> Inl e | Inr x \<Rightarrow> f x)"

section \<open>BaseAPI._validate_sql_string\<close>

definition validate_sql_string :: "string \<Rightarrow> error + string" where
  "validate_sql_string sql_string =
     (if length sql_string > 0 then
        (if last sql_string \<noteq> CHR '';'' then Inr (sql_string @ '';'')
         else Inr sql_string)
      else Inl (InvalidQueryError sql_string))"

text \<open>The number of statement separators a text ends with.\<close>

definition trailing_separators :: "string \<Rightarrow> nat" where
  "trailing_separators s = length (takeWhile (\<lambda>c. c = CHR '';'') (rev s))"

section \<open>Python's str and repr on decoded JSON\<close>

definition hex_digit :: "nat \<Rightarrow> char" where
  "hex_digit d = (if d < 10 then char_of (48 + d) else char_of (87 + d))"

definition hex_escape :: "char \<Rightarrow> string" where
  "hex_escape c =
     [CHR 0x5C, CHR ''x'', hex_digit (of_char c div 16), hex_digit (of_char c mod 16)]"

text \<open>Code points of a str that repr leaves as they are (below 256).\<close>

definition str_printable :: "char \<Rightarrow> bool" where
  "str_printable c =
     (let n = (of_char c :: nat)
      in (32 \<le> n \<and> n < 127) \<or> (161 \<le> n \<and> n \<noteq> 173))"

definition repr_quote :: "string \<Rightarrow> char" where
  "repr_quote s =
     (if CHR 0x27 \<in> set s \<and> CHR 0x22 \<notin> set s then CHR 0x22 else CHR 0x27)"

definition escape_char :: "bool \<Rightarrow> char \<Rightarrow> char \<Rightarrow> string" where
  "escape_char is_str quote c =
     (if c = quote \<or> c = CHR 0x5C then [CHR 0x5C, c]
      else if c = CHR 0x09 then [CHR 0x5C, CHR ''t'']
      else if c = CHR 0x0A then [CHR 0x5C, CHR ''n'']
      else if c = CHR 0x0D then [CHR 0x5C, CHR ''r'']
      else if (of_char c :: nat) < 32 \<or> (of_char c :: nat) = 127 then hex_escape c
      else if (of_char c :: nat) < 127 then [c]
      else if is_str \<and> str_printable c then [c]
      else hex_escape c)"

definition repr_str :: "string \<Rightarrow> string" where
  "repr_str s =
     (let quote = repr_quote s
      in [quote] @ concat (map (escape_char True quote) s) @ [quote])"

definition repr_bytes :: "string \<Rightarrow> string" where
  "repr_bytes b =
     (let quote = repr_quote b
      in ''b'' @ [quote] @ concat (map (escape_char False quote) b) @ [quote])"

fun digits_of_nat :: "nat \<Rightarrow> string" where
  "digits_of_nat n =
     (if n < 10 then [char_of (48 + n)]
      else digits_of_nat (n div 10) @ [char_of (48 + n mod 10)])"

definition str_int :: "int \<Rightarrow> string" where
  "str_int i = (if i < 0 then ''-'' @ digits_of_nat (nat (- i)) else digits_of_nat (nat i))"

fun join :: "string \<Rightarrow> string list \<Rightarrow> string" where
  "join sep [] = []"
| "join sep [x] = x"
| "join sep (x # y # ys) = x @ sep @ join sep (y # ys)"

fun py_repr :: "json \<Rightarrow> string" where
  "py_repr JNull = ''None''"
| "py_repr (JBool b) = (if b then ''True'' else ''False'')"
| "py_repr (JInt i) = str_int i"
| "py_repr (JFloat t) = t"
| "py_repr (JStr s) = repr_str s"
| "py_repr (JList xs) = ''['' @ join '', '' (map py_repr xs) @ '']''"
| "py_repr (JDict kvs) =
     ''{'' @ join '', '' (map (\<lambda>kv. repr_str (fst kv) @ '': '' @ py_repr (snd kv)) kvs) @ ''}''"

text \<open>str of a str is the text itself; str of anything else is its repr.\<close>

definition py_str :: "json \<Rightarrow> string" where
  "py_str v = (case v of JStr s \<Rightarrow> s | _ \<Rightarrow> py_repr v)"

text \<open>The test \<^verbatim>\<open>needle in haystack\<close> on two strs.\<close>

fun startswith :: "string \<Rightarrow> string \<Rightarrow> bool" where
  "startswith [] ys = True"
| "startswith (x # xs) [] = False"
| "startswith (x # xs) (y # ys) = (x = y \<and> startswith xs ys)"

fun str_contains :: "string \<Rightarrow> string \<Rightarrow> bool" where
  "str_contains needle [] = (needle = [])"
| "str_contains needle (y # ys) = (startswith needle (y # ys) \<or> str_contains needle ys)"

section \<open>Subscripting decoded JSON\<close>

text \<open>
  \<^verbatim>\<open>r[0]\<close>: the first item of a list, the first character of a str; a dict decoded
  from JSON has str keys only, so the key 0 is missing; nothing else can be subscripted.
\<close>

definition py_index0 :: "json \<Rightarrow> error + json" where
  "py_index0 r =
     (case r of
        JList xs \<Rightarrow> (case xs of [] \<Rightarrow> Inl IndexError | x # _ \<Rightarrow> Inr x)
      | JStr s \<Rightarrow> (case s of [] \<Rightarrow> Inl IndexError | c # _ \<Rightarrow> Inr (JStr [c]))
      | JDict kvs \<Rightarrow> Inl (KeyError ''0'')
      | _ \<Rightarrow> Inl TypeError)"

text \<open>\<^verbatim>\<open>v['key']\<close>: only a dict takes a str subscript.\<close>

definition py_getitem :: "json \<Rightarrow> string \<Rightarrow> error + json" where
  "py_getitem v key =
     (case v of
        JDict kvs \<Rightarrow> (case map_of kvs key of None \<Rightarrow> Inl (KeyError key) | Some x \<Rightarrow> Inr x)
      | _ \<Rightarrow> Inl TypeError)"

fun py_path :: "json \<Rightarrow> string list \<Rightarrow> error + json" where
  "py_path v [] = Inr v"
| "py_path v (key # keys) = bind_err (py_getitem v key) (\<lambda>x. py_path x keys)"

section \<open>BaseAPI._parse_ksql_res\<close>

definition parse_ksql_res :: "json \<Rightarrow> error + bool" where
  "parse_ksql_res r =
     bind_err (py_index0 r) (\<lambda>r0.
       if str_contains ''commandStatus'' (py_str r0) then
         bind_err (py_path r0 [''currentStatus'', ''commandStatus'', ''status'']) (\<lambda>status.
           if status = JStr ''SUCCESS'' then Inr True
           else bind_err (py_path r0 [''currentStatus'', ''commandStatus'', ''message''])
                  (\<lambda>message. Inl (CreateError message)))
       else
         bind_err (py_path r0 [''error'', ''errorMessage'', ''message'']) (\<lambda>message.
           case message of
             JStr m \<Rightarrow> Inl (CreateError (JStr (''Message: '' @ m)))
           | _ \<Rightarrow> Inl TypeError))"

section \<open>BaseAPI.__init__\<close>

text \<open>The keyword arguments the constructor looks at; a delay and a timeout are seconds.\<close>

record kwargs =
  kw_max_retries :: "int option"
  kw_delay :: "nat option"
  kw_timeout :: "nat option"

record base_api =
  api_url :: string
  api_max_retries :: int
  api_delay :: nat
  api_timeout :: nat

definition base_api_init :: "string \<Rightarrow> kwargs \<Rightarrow> base_api" where
  "base_api_init url kw =
     \<lparr> api_url = url,
       api_max_retries = (case kw_max_retries kw of None \<Rightarrow> 3 | Some n \<Rightarrow> n),
       api_delay = (case kw_delay kw of None \<Rightarrow> 0 | Some d \<Rightarrow> d),
       api_timeout = (case kw_timeout kw of None \<Rightarrow> 5 | Some t \<Rightarrow> t) \<rparr>"

section \<open>Collaborators outside ksql/api.py\<close>

record request =
  req_method :: string
  req_url :: string
  req_data :: string
  req_timeout :: nat
  req_headers :: "(string \<times> string) list"
  req_stream :: bool

text \<open>
  A response of the requests library: its status code, its body, and the chunks that
  \<^verbatim>\<open>iter_content(chunk_size)\<close> hands out.
\<close>

record response =
  status_code :: int
  content :: string
  iter_content :: "nat \<Rightarrow> string list"

text \<open>
  The functions the module calls and does not define, as parameters: \<^verbatim>\<open>requests.request\<close>
  acting on the state \<open>'s\<close> of the network, \<^verbatim>\<open>json.dumps\<close>, \<^verbatim>\<open>json.loads\<close> (also behind
  \<^verbatim>\<open>r.json()\<close>), \<^verbatim>\<open>bytes.decode\<close> (chunk, then encoding) and \<^verbatim>\<open>SQLBuilder.build\<close> on its
  keyword arguments.
\<close>

record 's externals =
  requests_request :: "request \<Rightarrow> 's \<Rightarrow> (error + response) \<times> 's"
  json_dumps :: "json \<Rightarrow> string"
  json_loads :: "string \<Rightarrow> error + json"
  bytes_decode :: "string \<Rightarrow> string \<Rightarrow> error + string"
  sql_build :: "(string \<times> json) list \<Rightarrow> error + string"

section \<open>BaseAPI._request, BaseAPI.ksql, BaseAPI.query\<close>

definition request :: "'s externals \<Rightarrow> base_api \<Rightarrow> string \<Rightarrow> string \<Rightarrow> string \<Rightarrow> json \<Rightarrow> 's
    \<Rightarrow> (error + response) \<times> 's" where
  "request ext api endpoint method sql_string streams_properties s =
     (let url = api_url api @ ''/'' @ endpoint
      in case validate_sql_string sql_string of
           Inl e \<Rightarrow> (Inl e, s)
         | Inr sql \<Rightarrow>
             (let data = json_dumps ext
                    (JDict [(''ksql'', JStr sql), (''streamsProperties'', streams_properties)]);
                  headers = [(''Accept'', ''application/json''),
                             (''Content-Type'', ''application/json'')];
                  stream = (if endpoint = ''query'' then True else False)
              in requests_request ext
                   \<lparr> req_method = method, req_url = url, req_data = data,
                     req_timeout = api_timeout api, req_headers = headers,
                     req_stream = stream \<rparr> s))"

definition status_message :: "int \<Rightarrow> string \<Rightarrow> string" where
  "status_message code body =
     ''Status Code: '' @ str_int code @ [CHR ''.'', CHR 0x0A] @ ''Message: '' @ repr_bytes body"

definition ksql :: "'s externals \<Rightarrow> base_api \<Rightarrow> string \<Rightarrow> json \<Rightarrow> 's \<Rightarrow> (error + json) \<times> 's" where
  "ksql ext api ksql_string streams_properties s =
     (case request ext api ''ksql'' ''post'' ksql_string streams_properties s of
        (Inl e, s') \<Rightarrow> (Inl e, s')
      | (Inr r, s') \<Rightarrow>
          if status_code r = 200 then (json_loads ext (content r), s')
          else (Inl (ValueError (status_message (status_code r) (content r))), s'))"

text \<open>What one chunk that is not a bare newline becomes.\<close>

definition decode_row :: "'s externals \<Rightarrow> string \<Rightarrow> string \<Rightarrow> error + json" where
  "decode_row ext encoding chunk = bind_err (bytes_decode ext chunk encoding) (json_loads ext)"

text \<open>
  The loop of the generator over the chunks of the body: the rows it yields, in order,
  and the exception that ends it, if one does.
\<close>

fun query_rows :: "'s externals \<Rightarrow> string \<Rightarrow> string list \<Rightarrow> json list \<times> error option" where
  "query_rows ext encoding [] = ([], None)"
| "query_rows ext encoding (chunk # chunks) =
     (if chunk \<noteq> [CHR 0x0A] then
        (case decode_row ext encoding chunk of
           Inl e \<Rightarrow> ([], Some e)
         | Inr row \<Rightarrow>
             (case query_rows ext encoding chunks of (rows, stop) \<Rightarrow> (row # rows, stop)))
      else query_rows ext encoding chunks)"

definition query :: "'s externals \<Rightarrow> base_api \<Rightarrow> string \<Rightarrow> string \<Rightarrow> nat \<Rightarrow> json \<Rightarrow> 's
    \<Rightarrow> (json list \<times> error option) \<times> 's" where
  "query ext api query_string encoding chunk_size streams_properties s =
     (case request ext api ''query'' ''post'' query_string streams_properties s of
        (Inl e, s') \<Rightarrow> (([], Some e), s')
      | (Inr r, s') \<Rightarrow> (query_rows ext encoding (iter_content r chunk_size), s'))"

text \<open>The rows of a sequence of decoding results, up to the first failure.\<close>

fun rows_until_error :: "(error + json) list \<Rightarrow> json list \<times> error option" where
  "rows_until_error [] = ([], None)"
| "rows_until_error (Inl e # rest) = ([], Some e)"
| "rows_until_error (Inr row # rest) =
     (case rows_until_error rest of (rows, stop) \<Rightarrow> (row # rows, stop))"

section \<open>BaseAPI.retry\<close>

text \<open>
  The wrapped function acts on a state \<open>'s\<close> and returns or raises. Around it, the
  wrapper's world: the number of times the function has been called, and the delays
  passed to \<^verbatim>\<open>time.sleep\<close>, in order.
\<close>

record 's world =
  op_state :: 's
  invocations :: nat
  slept :: "nat list"

definition start :: "'s \<Rightarrow> 's world" where
  "start s = \<lparr> op_state = s, invocations = 0, slept = [] \<rparr>"

definition invoke :: "('s \<Rightarrow> ('e + 'a) \<times> 's) \<Rightarrow> 's world \<Rightarrow> ('e + 'a) \<times> 's world" where
  "invoke function w =
     (case function (op_state w) of
        (res, s') \<Rightarrow> (res, w\<lparr> op_state := s', invocations := Suc (invocations w) \<rparr>))"

definition time_sleep :: "nat \<Rightarrow> 's world \<Rightarrow> 's world" where
  "time_sleep d w = w\<lparr> slept := slept w @ [d] \<rparr>"

text \<open>
  The for loop over \<^verbatim>\<open>range(max_retries)\<close>, on the counters still to come. A result
  \<open>Inr None\<close> is the None of a call that falls off the end of the wrapper.
\<close>

fun retry_loop :: "('e \<Rightarrow> bool) \<Rightarrow> nat \<Rightarrow> ('s \<Rightarrow> ('e + 'a) \<times> 's) \<Rightarrow> nat list \<Rightarrow> 'e option
    \<Rightarrow> 's world \<Rightarrow> ('e + 'a option) \<times> 's world" where
  "retry_loop exceptions delay function [] final_excep w =
     (case final_excep of Some e \<Rightarrow> (Inl e, w) | None \<Rightarrow> (Inr None, w))"
| "retry_loop exceptions delay function (counter # rest) final_excep w =
     (let w1 = (if counter > 0 then time_sleep delay w else w)
      in case invoke function w1 of
           (Inr val, w2) \<Rightarrow> (Inr (Some val), w2)
         | (Inl e, w2) \<Rightarrow>
             if exceptions e then retry_loop exceptions delay function rest (Some e) w2
             else (Inl e, w2))"

definition inner_wrapper :: "('e \<Rightarrow> bool) \<Rightarrow> nat \<Rightarrow> int \<Rightarrow> ('s \<Rightarrow> ('e + 'a) \<times> 's) \<Rightarrow> 's world
    \<Rightarrow> ('e + 'a option) \<times> 's world" where
  "inner_wrapper exceptions delay max_retries function w =
     retry_loop exceptions delay function [0..<nat max_retries] None w"

text \<open>The defaults of \<^verbatim>\<open>retry(exceptions, delay=1, max_retries=5)\<close>.\<close>

definition retry_default_delay :: nat where
  "retry_default_delay = 1"

definition retry_default_max_retries :: int where
  "retry_default_max_retries = 5"

text \<open>
  The state the function is in at its n-th call (counting from 0) when it is called
  again and again from \<open>s\<close>, and what that call returns or raises.
\<close>

fun state_before :: "('s \<Rightarrow> 'r \<times> 's) \<Rightarrow> nat \<Rightarrow> 's \<Rightarrow> 's" where
  "state_before function 0 s = s"
| "state_before function (Suc n) s = state_before function n (snd (function s))"

definition outcome :: "('s \<Rightarrow> 'r \<times> 's) \<Rightarrow> nat \<Rightarrow> 's \<Rightarrow> 'r" where
  "outcome function n s = fst (function (state_before function n s))"

section \<open>SimplifiedAPI._create and SimplifiedAPI._create_as\<close>

definition create :: "'s externals \<Rightarrow> base_api \<Rightarrow> string \<Rightarrow> string \<Rightarrow> json \<Rightarrow> string \<Rightarrow> string \<Rightarrow> 's
    \<Rightarrow> (error + bool) \<times> 's" where
  "create ext api table_type table_name columns_type topic value_format s =
     (case sql_build ext
             [(''sql_type'', JStr ''create''), (''table_type'', JStr table_type),
              (''table_name'', JStr table_name), (''columns_type'', columns_type),
              (''topic'', JStr topic), (''value_format'', JStr value_format)] of
        Inl e \<Rightarrow> (Inl e, s)
      | Inr ksql_string \<Rightarrow>
          (case ksql ext api ksql_string (JDict []) s of
             (Inl e, s') \<Rightarrow> (Inl e, s')
           | (Inr r, s') \<Rightarrow> (parse_ksql_res r, s')))"

record create_as_args =
  table_type :: string
  table_name :: string
  select_columns :: json
  src_table :: string
  kafka_topic :: json
  value_format :: string
  conditions :: json
  partition_by :: json
  more_kwargs :: "(string \<times> json) list"

text \<open>The body of \<^verbatim>\<open>_create_as\<close>, under the decorator.\<close>

definition create_as_body :: "'s externals \<Rightarrow> base_api \<Rightarrow> create_as_args \<Rightarrow> 's
    \<Rightarrow> (error + bool) \<times> 's" where
  "create_as_body ext api a s =
     (case sql_build ext
             ([(''sql_type'', JStr ''create_as''), (''table_type'', JStr (table_type a)),
               (''table_name'', JStr (table_name a)), (''select_columns'', select_columns a),
               (''src_table'', JStr (src_table a)), (''kafka_topic'', kafka_topic a),
               (''value_format'', JStr (value_format a)), (''conditions'', conditions a),
               (''partition_by'', partition_by a)] @ more_kwargs a) of
        Inl e \<Rightarrow> (Inl e, s)
      | Inr ksql_string \<Rightarrow>
          (case ksql ext api ksql_string (JDict []) s of
             (Inl e, s') \<Rightarrow> (Inl e, s')
           | (Inr r, s') \<Rightarrow> (parse_ksql_res r, s')))"

text \<open>\<^verbatim>\<open>except (Timeout, CreateError)\<close>.\<close>

definition create_as_exceptions :: "error \<Rightarrow> bool" where
  "create_as_exceptions e = (case e of Timeout \<Rightarrow> True | CreateError _ \<Rightarrow> True | _ \<Rightarrow> False)"

text \<open>\<^verbatim>\<open>@BaseAPI.retry(exceptions=(Timeout, CreateError))\<close> around the body.\<close>

definition create_as :: "'s externals \<Rightarrow> base_api \<Rightarrow> create_as_args \<Rightarrow> 's world
    \<Rightarrow> (error + bool option) \<times> 's world" where
  "create_as ext api a w =
     inner_wrapper create_as_exceptions retry_default_delay retry_default_max_retries
       (create_as_body ext api a) w"

section \<open>Sample responses\<close>

text \<open>
  Whether the entry has a command-status section where the interpreter reads it, under
  \<^verbatim>\<open>['currentStatus']['commandStatus']\<close>.
\<close>

definition has_command_status :: "json \<Rightarrow> bool" where
  "has_command_status r0 =
     (case py_path r0 [''currentStatus'', ''commandStatus''] of Inr _ \<Rightarrow> True | Inl _ \<Rightarrow> False)"

text \<open>Entries of the two shapes the engine sends, and a status entry with no message.\<close>

definition status_entry :: "string \<Rightarrow> string \<Rightarrow> json" where
  "status_entry status message =
     JDict [(''currentStatus'', JDict [(''statementText'', JStr ''CREATE STREAM s;''),
       (''commandStatus'', JDict [(''status'', JStr status), (''message'', JStr message)])])]"

definition status_entry_without_message :: json where
  "status_entry_without_message =
     JDict [(''currentStatus'', JDict [(''commandStatus'', JDict [(''status'', JStr ''ERROR'')])])]"

definition error_entry :: "string \<Rightarrow> json" where
  "error_entry message =
     JDict [(''error'', JDict [(''errorMessage'', JDict [(''message'', JStr message)])])]"

section \<open>Sample operations and collaborators\<close>

text \<open>
  Operations whose state is the number of calls made so far: one that raises Timeout on
  its first \<open>n\<close> calls and returns afterwards, one that raises Timeout on its first call
  and ValueError afterwards, and one that raises Timeout on every call.
\<close>

definition fails_then_succeeds :: "nat \<Rightarrow> nat \<Rightarrow> (error + string) \<times> nat" where
  "fails_then_succeeds n s = (if s < n then Inl Timeout else Inr ''done'', Suc s)"

definition timeout_then_value_error :: "nat \<Rightarrow> (error + string) \<times> nat" where
  "timeout_then_value_error s = (if s = 0 then Inl Timeout else Inl (ValueError ''bad''), Suc s)"

definition always_timeout :: "nat \<Rightarrow> (error + string) \<times> nat" where
  "always_timeout s = (Inl Timeout, Suc s)"

text \<open>
  Collaborators for the examples. The state of the network is the number of requests
  sent; every request gets the same answer. The decoder reads UTF-8 only, on ASCII text;
  the parser knows the two documents of the streaming example.
\<close>

definition doc_a1 :: string where
  "doc_a1 = [CHR 0x7B, CHR 0x22, CHR ''a'', CHR 0x22, CHR '':'', CHR ''1'', CHR 0x7D]"

definition doc_a2 :: string where
  "doc_a2 = [CHR 0x7B, CHR 0x22, CHR ''a'', CHR 0x22, CHR '':'', CHR ''2'', CHR 0x7D]"

definition sample_loads :: "string \<Rightarrow> error + json" where
  "sample_loads text =
     (if text = doc_a1 then Inr (JDict [(''a'', JInt 1)])
      else if text = doc_a2 then Inr (JDict [(''a'', JInt 2)])
      else Inl (ValueError ''JSONDecodeError''))"

definition sample_decode :: "string \<Rightarrow> string \<Rightarrow> error + string" where
  "sample_decode chunk encoding =
     (if encoding = ''utf-8'' then Inr chunk else Inl (OtherError ''LookupError''))"

definition sample_externals :: "error + response \<Rightarrow> nat externals" where
  "sample_externals answer =
     \<lparr> requests_request = (\<lambda>req sent. (answer, Suc sent)),
       json_dumps = py_repr,
       json_loads = sample_loads,
       bytes_decode = sample_decode,
       sql_build = (\<lambda>args. Inr ''CREATE STREAM s AS SELECT * FROM t'') \<rparr>"

definition sample_response :: "int \<Rightarrow> string \<Rightarrow> response" where
  "sample_response code body =
     \<lparr> status_code = code, content = body, iter_content = (\<lambda>chunk_size. [body]) \<rparr>"

definition sample_args :: create_as_args where
  "sample_args =
     \<lparr> table_type = ''stream'', table_name = ''s'', select_columns = JList [JStr ''*''],
       src_table = ''t'', kafka_topic = JNull, value_format = ''JSON'',
       conditions = JList [], partition_by = JNull, more_kwargs = [] \<rparr>"

text \<open>A client constructed with one attempt and no delay.\<close>

definition single_attempt_api :: base_api where
  "single_attempt_api =
     base_api_init ''http://localhost:8088''
       \<lparr> kw_max_retries = Some 1, kw_delay = Some 0, kw_timeout = None \<rparr>"

section \<open>The statement validator\<close>

lemma trailing_separators_append_one:
  "s \<noteq> [] \<Longrightarrow> last s \<noteq> CHR '';'' \<Longrightarrow> trailing_separators (s @ '';'') = 1"
  by (cases s rule: rev_cases) (simp_all add: trailing_separators_def)

lemma trailing_separators_pos:
  "s \<noteq> [] \<Longrightarrow> last s = CHR '';'' \<Longrightarrow> 1 \<le> trailing_separators s"
  by (cases s rule: rev_cases) (simp_all add: trailing_separators_def)

lemma trailing_separators_none:
  "s \<noteq> [] \<Longrightarrow> last s \<noteq> CHR '';'' \<Longrightarrow> trailing_separators s = 0"
  by (cases s rule: rev_cases) (simp_all add: trailing_separators_def)

text \<open>
  C1. On the empty text the validator raises InvalidQueryError (the spec's
  InvalidStatementError); on a non-empty text whose last character is not the separator
  it returns the text with one separator appended; on a non-empty text that ends with
  the separator it returns the text as it is.
\<close>

theorem validate_sql_string_cases:
  "(s = [] \<longrightarrow> validate_sql_string s = Inl (InvalidQueryError s)) \<and>
   (s \<noteq> [] \<and> last s \<noteq> CHR '';'' \<longrightarrow> validate_sql_string s = Inr (s @ '';'')) \<and>
   (s \<noteq> [] \<and> last s = CHR '';'' \<longrightarrow> validate_sql_string s = Inr s)"
  by (simp add: validate_sql_string_def)

theorem validate_sql_string_cases_witness:
  "validate_sql_string '''' = Inl (InvalidQueryError '''') \<and>
   validate_sql_string ''SELECT 1'' = Inr ''SELECT 1;'' \<and>
   validate_sql_string '' SELECT 1; '' = Inr '' SELECT 1; ;'' \<and>
   validate_sql_string ''SELECT 1;'' = Inr ''SELECT 1;''"
  using validate_sql_string_cases [of "''''"] validate_sql_string_cases [of "''SELECT 1''"]
    validate_sql_string_cases [of "'' SELECT 1; ''"] validate_sql_string_cases [of "''SELECT 1;''"]
  by simp

text \<open>
  C2, as stated, fails: a text that already ends with two separators is returned as it
  is, with both.
\<close>

theorem validate_sql_string_duplicate_separator:
  "validate_sql_string ''SELECT 1;;'' = Inr ''SELECT 1;;'' \<and>
   trailing_separators ''SELECT 1;;'' = 2"
  by (simp add: validate_sql_string_def trailing_separators_def)

text \<open>
  C2, amended. On a non-empty text the validator returns a text that ends with the
  separator; the result ends with as many separators as the input does, and with one
  when the input ends with none. So the result ends with exactly one separator unless
  the input already ended with two or more.
\<close>

theorem validate_sql_string_terminated:
  assumes "s \<noteq> []"
  shows "\<exists>t. validate_sql_string s = Inr t \<and> last t = CHR '';'' \<and>
             trailing_separators t = max 1 (trailing_separators s)"
proof (cases "last s = CHR '';''")
  case True
  with assms have "validate_sql_string s = Inr s"
    by (simp add: validate_sql_string_def)
  moreover from assms True have "1 \<le> trailing_separators s"
    by (rule trailing_separators_pos)
  ultimately show ?thesis using True by (auto simp: max_def)
next
  case False
  with assms have "validate_sql_string s = Inr (s @ '';'')"
    by (simp add: validate_sql_string_def)
  moreover from assms False have "trailing_separators (s @ '';'') = 1"
    by (rule trailing_separators_append_one)
  moreover from assms False have "trailing_separators s = 0"
    by (rule trailing_separators_none)
  ultimately show ?thesis by simp
qed

theorem validate_sql_string_terminated_witness:
  "''SELECT 1'' \<noteq> [] \<and>
   (\<exists>t. validate_sql_string ''SELECT 1'' = Inr t \<and> last t = CHR '';'' \<and>
        trailing_separators t = 1)"
  using validate_sql_string_terminated [of "''SELECT 1''"]
  by (simp add: trailing_separators_def)

section \<open>The string representation of decoded JSON\<close>


lemma startswith_iff: "startswith xs ys \<longleftrightarrow> (\<exists>ss. ys = xs @ ss)"
  by (induction xs ys rule: startswith.induct) auto

lemma str_contains_iff: "str_contains xs ys \<longleftrightarrow> (\<exists>ps ss. ys = ps @ xs @ ss)"
proof (induction ys)
  case Nil
  then show ?case by auto
next
  case (Cons y ys)
  show ?case
  proof
    assume "str_contains xs (y # ys)"
    then consider "startswith xs (y # ys)" | "str_contains xs ys" by auto
    then show "\<exists>ps ss. y # ys = ps @ xs @ ss"
    proof cases
      case 1
      then obtain ss where "y # ys = xs @ ss" by (auto simp: startswith_iff)
      then have "y # ys = [] @ xs @ ss" by simp
      then show ?thesis by blast
    next
      case 2
      with Cons obtain ps ss where "ys = ps @ xs @ ss" by auto
      then have "y # ys = (y # ps) @ xs @ ss" by simp
      then show ?thesis by blast
    qed
  next
    assume "\<exists>ps ss. y # ys = ps @ xs @ ss"
    then obtain ps ss where eq: "y # ys = ps @ xs @ ss" by blast
    show "str_contains xs (y # ys)"
    proof (cases ps)
      case Nil
      with eq have "startswith xs (y # ys)" by (auto simp: startswith_iff)
      then show ?thesis by simp
    next
      case (Cons p ps')
      with eq have "ys = ps' @ xs @ ss" by simp
      with Cons.IH have "str_contains xs ys" by blast
      then show ?thesis by simp
    qed
  qed
qed

lemma str_contains_trans:
  "str_contains xs ys \<Longrightarrow> str_contains ys zs \<Longrightarrow> str_contains xs zs"
proof -
  assume "str_contains xs ys" "str_contains ys zs"
  then obtain p1 s1 p2 s2 where "ys = p1 @ xs @ s1" "zs = p2 @ ys @ s2"
    by (auto simp: str_contains_iff)
  then have "zs = (p2 @ p1) @ xs @ (s1 @ s2)" by simp
  then show ?thesis unfolding str_contains_iff by blast
qed

lemma str_contains_append: "str_contains xs (ps @ xs @ ss)"
  unfolding str_contains_iff by blast

lemma join_member: "x \<in> set xs \<Longrightarrow> \<exists>ps ss. join sep xs = ps @ x @ ss"
proof (induction sep xs rule: join.induct)
  case (1 sep)
  then show ?case by simp
next
  case (2 sep y)
  then have "join sep [y] = [] @ x @ []" by simp
  then show ?case by blast
next
  case (3 sep y z zs)
  show ?case
  proof (cases "x = y")
    case True
    then have "join sep (y # z # zs) = [] @ x @ (sep @ join sep (z # zs))" by simp
    then show ?thesis by blast
  next
    case False
    with 3 obtain ps ss where "join sep (z # zs) = ps @ x @ ss" by auto
    then have "join sep (y # z # zs) = (y @ sep @ ps) @ x @ ss" by simp
    then show ?thesis by blast
  qed
qed

lemma py_repr_dict_item:
  assumes "map_of kvs key = Some v"
  shows "\<exists>ps ss. py_repr (JDict kvs) = ps @ repr_str key @ '': '' @ py_repr v @ ss"
proof -
  from assms have "(key, v) \<in> set kvs" by (rule map_of_SomeD)
  then have "repr_str key @ '': '' @ py_repr v
      \<in> set (map (\<lambda>kv. repr_str (fst kv) @ '': '' @ py_repr (snd kv)) kvs)"
    by force
  then obtain ps ss where
    "join '', '' (map (\<lambda>kv. repr_str (fst kv) @ '': '' @ py_repr (snd kv)) kvs)
       = ps @ (repr_str key @ '': '' @ py_repr v) @ ss"
    using join_member by blast
  then have "py_repr (JDict kvs) = (''{'' @ ps) @ repr_str key @ '': '' @ py_repr v @ (ss @ ''}'')"
    by simp
  then show ?thesis by blast
qed

lemma py_getitem_InrD:
  "py_getitem v key = Inr x \<Longrightarrow> \<exists>kvs. v = JDict kvs \<and> map_of kvs key = Some x"
  by (auto simp: py_getitem_def split: json.splits option.splits)

lemma py_getitem_dict_str: "py_getitem v key = Inr x \<Longrightarrow> py_str v = py_repr v"
  by (auto dest: py_getitem_InrD simp: py_str_def)

lemma py_getitem_contains_key:
  assumes "py_getitem v key = Inr x"
  shows "str_contains (repr_str key) (py_str v)"
proof -
  from assms obtain kvs where v: "v = JDict kvs" and m: "map_of kvs key = Some x"
    using py_getitem_InrD by blast
  from py_repr_dict_item [OF m] obtain ps ss where
    "py_repr (JDict kvs) = ps @ repr_str key @ ('': '' @ py_repr x @ ss)" by auto
  with v assms have "py_str v = ps @ repr_str key @ ('': '' @ py_repr x @ ss)"
    by (simp only: py_getitem_dict_str)
  then show ?thesis by (simp only: str_contains_append)
qed

lemma py_getitem_contains_value:
  assumes "py_getitem v key = Inr x"
  shows "str_contains (py_repr x) (py_str v)"
proof -
  from assms obtain kvs where v: "v = JDict kvs" and m: "map_of kvs key = Some x"
    using py_getitem_InrD by blast
  from py_repr_dict_item [OF m] obtain ps ss where
    "py_repr (JDict kvs) = ps @ repr_str key @ '': '' @ py_repr x @ ss" by auto
  then have "py_repr (JDict kvs) = (ps @ repr_str key @ '': '') @ py_repr x @ ss"
    by simp
  with v assms have "py_str v = (ps @ repr_str key @ '': '') @ py_repr x @ ss"
    by (simp only: py_getitem_dict_str)
  then show ?thesis by (simp only: str_contains_append)
qed

lemma repr_str_commandStatus:
  "repr_str ''commandStatus'' = CHR 0x27 # ''commandStatus'' @ [CHR 0x27]"
  by (simp add: repr_str_def repr_quote_def escape_char_def Let_def)

lemma command_status_section_in_str:
  assumes "py_getitem r0 ''currentStatus'' = Inr cs"
      and "py_getitem cs ''commandStatus'' = Inr sec"
  shows "str_contains ''commandStatus'' (py_str r0)"
proof -
  have "str_contains ''commandStatus'' (repr_str ''commandStatus'')"
    by (simp add: repr_str_commandStatus)
  moreover from assms(2) have "str_contains (repr_str ''commandStatus'') (py_str cs)"
    by (rule py_getitem_contains_key)
  ultimately have "str_contains ''commandStatus'' (py_str cs)"
    by (rule str_contains_trans)
  with assms(2) have "str_contains ''commandStatus'' (py_repr cs)"
    by (simp only: py_getitem_dict_str)
  moreover from assms(1) have "str_contains (py_repr cs) (py_str r0)"
    by (rule py_getitem_contains_value)
  ultimately show ?thesis by (rule str_contains_trans)
qed

section \<open>The response interpreter\<close>

lemma py_path_getitems2:
  "py_getitem v a = Inr x \<Longrightarrow> py_getitem x b = Inr y \<Longrightarrow> py_path v [a, b] = Inr y"
  by (simp add: bind_err_def)

lemma py_path_getitems3:
  "py_getitem v a = Inr x \<Longrightarrow> py_getitem x b = Inr y \<Longrightarrow> py_getitem y c = Inr z
    \<Longrightarrow> py_path v [a, b, c] = Inr z"
  by (simp add: bind_err_def)

text \<open>
  C3, as stated, fails. The spec's command status entry carries a status and an optional
  message. On a first entry whose command-status section has the status ERROR and no
  message, the interpreter raises KeyError while it builds the CreateError.
\<close>

theorem parse_ksql_res_missing_message:
  "py_index0 (JList [status_entry_without_message]) = Inr status_entry_without_message \<and>
   py_path status_entry_without_message [''currentStatus'', ''commandStatus'', ''status'']
     = Inr (JStr ''ERROR'') \<and>
   parse_ksql_res (JList [status_entry_without_message]) = Inl (KeyError ''message'')"
  by code_simp

text \<open>
  C3, amended. Let the first entry of the response have a command-status section (under
  \<^verbatim>\<open>['currentStatus']['commandStatus']\<close>) with a status. If the status is the str SUCCESS,
  the interpreter returns True. If it is anything else and the section has a message, the
  interpreter raises CreateError with that message, unchanged.
\<close>

theorem parse_ksql_res_command_status:
  assumes "py_index0 r = Inr r0"
      and "py_getitem r0 ''currentStatus'' = Inr cs"
      and "py_getitem cs ''commandStatus'' = Inr sec"
      and "py_getitem sec ''status'' = Inr status"
  shows "(status = JStr ''SUCCESS'' \<longrightarrow> parse_ksql_res r = Inr True) \<and>
         (status \<noteq> JStr ''SUCCESS'' \<longrightarrow>
            (\<forall>message. py_getitem sec ''message'' = Inr message \<longrightarrow>
               parse_ksql_res r = Inl (CreateError message)))"
proof -
  have branch: "str_contains ''commandStatus'' (py_str r0)"
    using assms(2,3) by (rule command_status_section_in_str)
  have st: "py_path r0 [''currentStatus'', ''commandStatus'', ''status''] = Inr status"
    using assms(2,3,4) by (rule py_path_getitems3)
  have msg: "py_path r0 [''currentStatus'', ''commandStatus'', ''message''] = Inr message"
    if "py_getitem sec ''message'' = Inr message" for message
    using assms(2,3) that by (rule py_path_getitems3)
  show ?thesis
    using assms(1) branch st msg by (simp add: parse_ksql_res_def bind_err_def)
qed

theorem parse_ksql_res_command_status_witness:
  "parse_ksql_res (JList [status_entry ''SUCCESS'' ''Stream created'']) = Inr True \<and>
   parse_ksql_res (JList [status_entry ''ERROR'' ''Topic missing''])
     = Inl (CreateError (JStr ''Topic missing''))"
proof -
  have i: "py_index0 (JList [status_entry s m]) = Inr (status_entry s m)" for s m
    by (simp add: py_index0_def)
  have a: "py_getitem (status_entry s m) ''currentStatus''
      = Inr (JDict [(''statementText'', JStr ''CREATE STREAM s;''),
          (''commandStatus'', JDict [(''status'', JStr s), (''message'', JStr m)])])" for s m
    by (simp add: py_getitem_def status_entry_def)
  have b: "py_getitem (JDict [(''statementText'', JStr ''CREATE STREAM s;''),
          (''commandStatus'', JDict [(''status'', JStr s), (''message'', JStr m)])]) ''commandStatus''
      = Inr (JDict [(''status'', JStr s), (''message'', JStr m)])" for s m
    by (simp add: py_getitem_def)
  have c: "py_getitem (JDict [(''status'', JStr s), (''message'', JStr m)]) ''status'' = Inr (JStr s)"
    for s m by (simp add: py_getitem_def)
  have d: "py_getitem (JDict [(''status'', JStr s), (''message'', JStr m)]) ''message'' = Inr (JStr m)"
    for s m by (simp add: py_getitem_def)
  show ?thesis
    using parse_ksql_res_command_status [OF i a b c, of "''SUCCESS''" "''Stream created''"]
      parse_ksql_res_command_status [OF i a b c, of "''ERROR''" "''Topic missing''"] d
    by simp
qed

text \<open>
  C4, as stated, fails. This first entry is an error entry with no command-status
  section, and its message mentions commandStatus: the interpreter raises KeyError, not
  CreateError.
\<close>

theorem parse_ksql_res_error_entry_mentioning_status:
  "py_index0 (JList [error_entry ''no commandStatus yet'']) = Inr (error_entry ''no commandStatus yet'') \<and>
   has_command_status (error_entry ''no commandStatus yet'') = False \<and>
   py_path (error_entry ''no commandStatus yet'') [''error'', ''errorMessage'', ''message'']
     = Inr (JStr ''no commandStatus yet'') \<and>
   parse_ksql_res (JList [error_entry ''no commandStatus yet'']) = Inl (KeyError ''currentStatus'')"
  by code_simp

text \<open>
  C4, amended. Let the first entry of the response be an error entry whose message, under
  \<^verbatim>\<open>['error']['errorMessage']['message']\<close>, is a str, and let the text commandStatus occur
  nowhere in the string representation of the entry. Then the interpreter raises
  CreateError with the message prefixed by \<^verbatim>\<open>Message: \<close>.
\<close>

theorem parse_ksql_res_error_entry:
  assumes "py_index0 r = Inr r0"
      and "\<not> str_contains ''commandStatus'' (py_str r0)"
      and "py_getitem r0 ''error'' = Inr er"
      and "py_getitem er ''errorMessage'' = Inr em"
      and "py_getitem em ''message'' = Inr (JStr m)"
  shows "parse_ksql_res r = Inl (CreateError (JStr (''Message: '' @ m)))"
proof -
  have "py_path r0 [''error'', ''errorMessage'', ''message''] = Inr (JStr m)"
    using assms(3,4,5) by (rule py_path_getitems3)
  with assms(1,2) show ?thesis by (simp add: parse_ksql_res_def bind_err_def)
qed

theorem parse_ksql_res_error_entry_witness:
  "\<not> str_contains ''commandStatus'' (py_str (error_entry ''Topic missing'')) \<and>
   parse_ksql_res (JList [error_entry ''Topic missing''])
     = Inl (CreateError (JStr ''Message: Topic missing''))"
proof -
  have i: "py_index0 (JList [error_entry ''Topic missing'']) = Inr (error_entry ''Topic missing'')"
    by (simp add: py_index0_def)
  have n: "\<not> str_contains ''commandStatus'' (py_str (error_entry ''Topic missing''))"
    by code_simp
  have a: "py_getitem (error_entry ''Topic missing'') ''error''
      = Inr (JDict [(''errorMessage'', JDict [(''message'', JStr ''Topic missing'')])])"
    by (simp add: py_getitem_def error_entry_def)
  have b: "py_getitem (JDict [(''errorMessage'', JDict [(''message'', JStr ''Topic missing'')])])
      ''errorMessage'' = Inr (JDict [(''message'', JStr ''Topic missing'')])"
    by (simp add: py_getitem_def)
  have c: "py_getitem (JDict [(''message'', JStr ''Topic missing'')]) ''message''
      = Inr (JStr ''Topic missing'')"
    by (simp add: py_getitem_def)
  show ?thesis using n parse_ksql_res_error_entry [OF i n a b c] by simp
qed

lemma py_path_no_section:
  assumes "\<not> has_command_status r0"
  shows "py_path r0 [''currentStatus'', ''commandStatus'', key] = Inl TypeError \<or>
         py_path r0 [''currentStatus'', ''commandStatus'', key] = Inl (KeyError ''currentStatus'') \<or>
         py_path r0 [''currentStatus'', ''commandStatus'', key] = Inl (KeyError ''commandStatus'')"
  using assms
  by (auto simp: has_command_status_def bind_err_def py_getitem_def
           split: sum.splits json.splits option.splits)

text \<open>
  C10. The branch is chosen by the substring test on the string representation of the
  first entry. So when the first entry has no command-status section and yet commandStatus
  occurs in its string representation, the interpreter takes the command-status branch and
  fails on the field access, with TypeError or with KeyError for currentStatus or
  commandStatus: never with the CreateError of the error branch.
\<close>

theorem parse_ksql_res_substring_test:
  assumes "py_index0 r = Inr r0"
      and "str_contains ''commandStatus'' (py_str r0)"
      and "\<not> has_command_status r0"
  shows "parse_ksql_res r = Inl TypeError \<or>
         parse_ksql_res r = Inl (KeyError ''currentStatus'') \<or>
         parse_ksql_res r = Inl (KeyError ''commandStatus'')"
proof -
  from assms(1,2) have "parse_ksql_res r =
      bind_err (py_path r0 [''currentStatus'', ''commandStatus'', ''status'']) (\<lambda>status.
        if status = JStr ''SUCCESS'' then Inr True
        else bind_err (py_path r0 [''currentStatus'', ''commandStatus'', ''message''])
               (\<lambda>message. Inl (CreateError message)))"
    by (simp add: parse_ksql_res_def bind_err_def)
  with py_path_no_section [OF assms(3), of "''status''"] show ?thesis
    by (auto simp: bind_err_def)
qed

theorem parse_ksql_res_substring_test_witness:
  "str_contains ''commandStatus'' (py_str (error_entry ''commandStatus is unknown'')) \<and>
   \<not> has_command_status (error_entry ''commandStatus is unknown'') \<and>
   parse_ksql_res (JList [error_entry ''commandStatus is unknown'']) = Inl (KeyError ''currentStatus'')"
proof -
  have i: "py_index0 (JList [error_entry ''commandStatus is unknown''])
      = Inr (error_entry ''commandStatus is unknown'')"
    by (simp add: py_index0_def)
  have c: "str_contains ''commandStatus'' (py_str (error_entry ''commandStatus is unknown''))"
    by code_simp
  have n: "\<not> has_command_status (error_entry ''commandStatus is unknown'')"
    by code_simp
  have "parse_ksql_res (JList [error_entry ''commandStatus is unknown'']) \<noteq> Inl TypeError"
    "parse_ksql_res (JList [error_entry ''commandStatus is unknown'']) \<noteq> Inl (KeyError ''commandStatus'')"
    by code_simp+
  with c n parse_ksql_res_substring_test [OF i c n] show ?thesis by simp
qed

section \<open>The retry wrapper\<close>

lemma invoke_eq:
  "invoke function w =
     (fst (function (op_state w)),
      w\<lparr> op_state := snd (function (op_state w)), invocations := Suc (invocations w) \<rparr>)"
  by (simp add: invoke_def split: prod.splits)

lemma outcome_0: "outcome function 0 s = fst (function s)"
  by (simp add: outcome_def)

lemma outcome_Suc: "outcome function (Suc n) s = outcome function n (snd (function s))"
  by (simp add: outcome_def)

text \<open>The world after one turn of the loop.\<close>

lemma turn_op_state:
  "op_state (snd (invoke function (if 0 < counter then time_sleep delay w else w)))
     = snd (function (op_state w))"
  by (simp add: invoke_eq time_sleep_def)

lemma turn_invocations:
  "invocations (snd (invoke function (if 0 < counter then time_sleep delay w else w)))
     = Suc (invocations w)"
  by (simp add: invoke_eq time_sleep_def)

text \<open>A turn whose call raises an exception that is caught.\<close>

lemma retry_loop_retry:
  assumes "outcome function 0 (op_state w) = Inl e" and "exceptions e"
  shows "retry_loop exceptions delay function (counter # rest) final_excep w
           = retry_loop exceptions delay function rest (Some e)
               (snd (invoke function (if 0 < counter then time_sleep delay w else w)))"
  using assms by (simp add: outcome_0 invoke_eq time_sleep_def Let_def)

text \<open>A turn whose call returns, or raises an exception that is not caught.\<close>

lemma retry_loop_stop:
  assumes "\<forall>e. outcome function 0 (op_state w) = Inl e \<longrightarrow> \<not> exceptions e"
  shows "retry_loop exceptions delay function (counter # rest) final_excep w
           = (map_sum (\<lambda>e. e) Some (outcome function 0 (op_state w)),
              snd (invoke function (if 0 < counter then time_sleep delay w else w)))"
  using assms
  by (cases "fst (function (op_state w))")
     (simp_all add: outcome_0 invoke_eq time_sleep_def Let_def)

lemma retry_loop_stops_at:
  assumes "k < length counters"
      and "\<forall>i<k. \<exists>e. outcome function i (op_state w) = Inl e \<and> exceptions e"
      and "\<forall>e. outcome function k (op_state w) = Inl e \<longrightarrow> \<not> exceptions e"
  shows "\<exists>w'. retry_loop exceptions delay function counters final_excep w
             = (map_sum (\<lambda>e. e) Some (outcome function k (op_state w)), w') \<and>
           invocations w' = invocations w + Suc k"
  using assms
proof (induction k arbitrary: counters final_excep w)
  case 0
  then obtain counter rest where "counters = counter # rest" by (cases counters) auto
  with "0.prems"(3) show ?case
    by (simp del: retry_loop.simps add: retry_loop_stop turn_invocations)
next
  case (Suc k)
  then obtain counter rest where cs: "counters = counter # rest" and len: "k < length rest"
    by (cases counters) auto
  from Suc.prems(2) obtain e where e: "outcome function 0 (op_state w) = Inl e" "exceptions e"
    by auto
  define w2 where "w2 = snd (invoke function (if 0 < counter then time_sleep delay w else w))"
  have step: "retry_loop exceptions delay function (counter # rest) final_excep w
             = retry_loop exceptions delay function rest (Some e) w2"
    unfolding w2_def using e by (rule retry_loop_retry)
  have st: "op_state w2 = snd (function (op_state w))"
    unfolding w2_def by (rule turn_op_state)
  have inv: "invocations w2 = Suc (invocations w)"
    unfolding w2_def by (rule turn_invocations)
  have earlier: "\<forall>i<k. \<exists>e. outcome function i (op_state w2) = Inl e \<and> exceptions e"
    using Suc.prems(2) st by (auto simp: outcome_Suc [symmetric])
  have final: "\<forall>e. outcome function k (op_state w2) = Inl e \<longrightarrow> \<not> exceptions e"
    using Suc.prems(3) st by (simp add: outcome_Suc)
  from Suc.IH [OF len earlier final] obtain w' where
    "retry_loop exceptions delay function rest (Some e) w2
       = (map_sum (\<lambda>e. e) Some (outcome function k (op_state w2)), w')"
    "invocations w' = invocations w2 + Suc k"
    by blast
  with step st inv cs show ?case by (simp del: retry_loop.simps add: outcome_Suc)
qed

lemma retry_loop_exhausted:
  assumes "counters \<noteq> []"
      and "\<forall>i<length counters. \<exists>e. outcome function i (op_state w) = Inl e \<and> exceptions e"
  shows "\<exists>e w'. retry_loop exceptions delay function counters final_excep w = (Inl e, w') \<and>
           outcome function (length counters - 1) (op_state w) = Inl e \<and>
           invocations w' = invocations w + length counters"
  using assms
proof (induction counters arbitrary: final_excep w rule: list_nonempty_induct)
  case (single counter)
  then obtain e where e: "outcome function 0 (op_state w) = Inl e" "exceptions e" by auto
  then have "retry_loop exceptions delay function [counter] final_excep w
       = (Inl e, snd (invoke function (if 0 < counter then time_sleep delay w else w)))"
    by (simp del: retry_loop.simps(2) add: retry_loop_retry)
  with e show ?case by (simp del: retry_loop.simps add: turn_invocations)
next
  case (cons counter rest)
  from cons.prems obtain e where e: "outcome function 0 (op_state w) = Inl e" "exceptions e"
    by auto
  define w2 where "w2 = snd (invoke function (if 0 < counter then time_sleep delay w else w))"
  have step: "retry_loop exceptions delay function (counter # rest) final_excep w
             = retry_loop exceptions delay function rest (Some e) w2"
    unfolding w2_def using e by (rule retry_loop_retry)
  have st: "op_state w2 = snd (function (op_state w))"
    unfolding w2_def by (rule turn_op_state)
  have inv: "invocations w2 = Suc (invocations w)"
    unfolding w2_def by (rule turn_invocations)
  have "\<forall>i<length rest. \<exists>e. outcome function i (op_state w2) = Inl e \<and> exceptions e"
    using cons.prems st by (auto simp: outcome_Suc [symmetric])
  from cons.IH [OF this] obtain e' w' where
    "retry_loop exceptions delay function rest (Some e) w2 = (Inl e', w')"
    "outcome function (length rest - 1) (op_state w2) = Inl e'"
    "invocations w' = invocations w2 + length rest"
    by blast
  moreover from cons.hyps have "length (counter # rest) - 1 = Suc (length rest - 1)"
    by (cases rest) auto
  then have "outcome function (length (counter # rest) - 1) (op_state w)
      = outcome function (length rest - 1) (op_state w2)"
    by (simp only: outcome_Suc st)
  ultimately show ?case using step inv by (simp del: retry_loop.simps)
qed

text \<open>
  C5. Let the wrapped function, called again and again from the state \<open>s\<close>, raise a
  caught exception on each of its first \<open>k\<close> calls and return \<open>v\<close> on the next one, with
  \<open>k\<close> below \<open>max_retries\<close>. Then the wrapper returns \<open>v\<close>, and the function has been
  called exactly \<open>k + 1\<close> times when it does.
\<close>

theorem retry_succeeds_after_failures:
  assumes "int k < max_retries"
      and "\<forall>i<k. \<exists>e. outcome function i s = Inl e \<and> exceptions e"
      and "outcome function k s = Inr v"
  shows "\<exists>w. inner_wrapper exceptions delay max_retries function (start s) = (Inr (Some v), w) \<and>
             invocations w = k + 1"
proof -
  from assms(1) have "k < length [0..<nat max_retries]" by simp
  moreover have "\<forall>i<k. \<exists>e. outcome function i (op_state (start s)) = Inl e \<and> exceptions e"
    using assms(2) by (simp add: start_def)
  moreover have "\<forall>e. outcome function k (op_state (start s)) = Inl e \<longrightarrow> \<not> exceptions e"
    using assms(3) by (simp add: start_def)
  ultimately obtain w where
    "retry_loop exceptions delay function [0..<nat max_retries] None (start s)
       = (map_sum (\<lambda>e. e) Some (outcome function k (op_state (start s))), w)"
    "invocations w = invocations (start s) + Suc k"
    using retry_loop_stops_at by blast
  with assms(3) show ?thesis by (simp add: inner_wrapper_def start_def)
qed

theorem retry_succeeds_after_failures_witness:
  "(\<exists>w. inner_wrapper create_as_exceptions 0 3 (fails_then_succeeds 1) (start 0)
           = (Inr (Some ''done''), w) \<and> invocations w = 2)"
proof -
  have a: "int 1 < 3" by simp
  have b: "\<forall>i<1. \<exists>e. outcome (fails_then_succeeds 1) i 0 = Inl e \<and> create_as_exceptions e"
    by (simp add: outcome_0 fails_then_succeeds_def create_as_exceptions_def)
  have c: "outcome (fails_then_succeeds 1) 1 0 = Inr ''done''"
    by (simp add: outcome_def fails_then_succeeds_def)
  from retry_succeeds_after_failures [OF a b c, of 0] show ?thesis
    by (simp add: numeral_2_eq_2)
qed


text \<open>
  C6, as stated, fails twice. A function that raises Timeout on its first call and
  ValueError on its second has been called twice, not once, when the ValueError leaves a
  wrapper that catches Timeout and CreateError. And with \<open>max_retries = 0\<close> the wrapper
  calls nothing, raises nothing and returns None.
\<close>

theorem retry_counterexamples:
  "outcome timeout_then_value_error 0 0 = Inl Timeout \<and> create_as_exceptions Timeout \<and>
   outcome timeout_then_value_error 1 0 = Inl (ValueError ''bad'') \<and>
   \<not> create_as_exceptions (ValueError ''bad'') \<and>
   fst (inner_wrapper create_as_exceptions 0 3 timeout_then_value_error (start 0))
     = Inl (ValueError ''bad'') \<and>
   invocations (snd (inner_wrapper create_as_exceptions 0 3 timeout_then_value_error (start 0)))
     = 2 \<and>
   inner_wrapper create_as_exceptions 0 0 always_timeout (start 0) = (Inr None, start 0)"
  by code_simp

text \<open>
  C6, amended. With \<open>max_retries\<close> at least 1: if each of the first \<open>max_retries\<close> calls
  raises a caught exception, the wrapper raises the exception of the last of them, after
  exactly \<open>max_retries\<close> calls. If the first \<open>k\<close> calls raise caught exceptions and the
  next one, within the bound, raises an exception that is not caught, the wrapper raises
  that exception after exactly \<open>k + 1\<close> calls: after one call when it is the first.
\<close>

theorem retry_reraises:
  "(1 \<le> max_retries \<and>
      (\<forall>i<nat max_retries. \<exists>e. outcome function i s = Inl e \<and> exceptions e) \<longrightarrow>
      (\<exists>e w. inner_wrapper exceptions delay max_retries function (start s) = (Inl e, w) \<and>
             outcome function (nat max_retries - 1) s = Inl e \<and>
             invocations w = nat max_retries)) \<and>
   (int k < max_retries \<and>
      (\<forall>i<k. \<exists>e. outcome function i s = Inl e \<and> exceptions e) \<and>
      outcome function k s = Inl e' \<and> \<not> exceptions e' \<longrightarrow>
      (\<exists>w. inner_wrapper exceptions delay max_retries function (start s) = (Inl e', w) \<and>
           invocations w = k + 1))"
proof (intro conjI impI)
  assume "1 \<le> max_retries \<and>
      (\<forall>i<nat max_retries. \<exists>e. outcome function i s = Inl e \<and> exceptions e)"
  then have ne: "[0..<nat max_retries] \<noteq> []"
    and all: "\<forall>i<length [0..<nat max_retries].
                \<exists>e. outcome function i (op_state (start s)) = Inl e \<and> exceptions e"
    by (simp_all add: start_def)
  from retry_loop_exhausted [OF ne all, of delay None]
  show "\<exists>e w. inner_wrapper exceptions delay max_retries function (start s) = (Inl e, w) \<and>
             outcome function (nat max_retries - 1) s = Inl e \<and>
             invocations w = nat max_retries"
    by (simp add: inner_wrapper_def start_def)
next
  assume a: "int k < max_retries \<and>
      (\<forall>i<k. \<exists>e. outcome function i s = Inl e \<and> exceptions e) \<and>
      outcome function k s = Inl e' \<and> \<not> exceptions e'"
  then have "k < nat max_retries" by linarith
  then have "k < length [0..<nat max_retries]" by simp
  moreover have "\<forall>i<k. \<exists>e. outcome function i (op_state (start s)) = Inl e \<and> exceptions e"
    using a by (simp add: start_def)
  moreover have "\<forall>e. outcome function k (op_state (start s)) = Inl e \<longrightarrow> \<not> exceptions e"
    using a by (simp add: start_def)
  ultimately obtain w where
    "retry_loop exceptions delay function [0..<nat max_retries] None (start s)
       = (map_sum (\<lambda>e. e) Some (outcome function k (op_state (start s))), w)"
    "invocations w = invocations (start s) + Suc k"
    using retry_loop_stops_at by blast
  with a show "\<exists>w. inner_wrapper exceptions delay max_retries function (start s) = (Inl e', w) \<and>
           invocations w = k + 1"
    by (simp add: inner_wrapper_def start_def)
qed

theorem retry_reraises_witness:
  "(\<exists>w. inner_wrapper create_as_exceptions 0 3 always_timeout (start 0) = (Inl Timeout, w) \<and>
        invocations w = 3) \<and>
   (\<exists>w. inner_wrapper create_as_exceptions 0 3 timeout_then_value_error (start 0)
           = (Inl (ValueError ''bad''), w) \<and> invocations w = 2)"
proof -
  have o: "outcome always_timeout i 0 = Inl Timeout" for i
    by (simp add: outcome_def always_timeout_def)
  have a: "(1::int) \<le> 3 \<and>
      (\<forall>i<nat 3. \<exists>e. outcome always_timeout i 0 = Inl e \<and> create_as_exceptions e)"
    by (simp add: o create_as_exceptions_def)
  have b: "int 1 < 3 \<and>
      (\<forall>i<1. \<exists>e. outcome timeout_then_value_error i 0 = Inl e \<and> create_as_exceptions e) \<and>
      outcome timeout_then_value_error 1 0 = Inl (ValueError ''bad'') \<and>
      \<not> create_as_exceptions (ValueError ''bad'')"
    by (simp add: outcome_def timeout_then_value_error_def create_as_exceptions_def)
  from a retry_reraises [of 3 always_timeout 0 create_as_exceptions 0]
  have "\<exists>e w. inner_wrapper create_as_exceptions 0 3 always_timeout (start 0) = (Inl e, w) \<and>
             outcome always_timeout (nat 3 - 1) 0 = Inl e \<and> invocations w = nat 3"
    by blast
  then have first: "\<exists>w. inner_wrapper create_as_exceptions 0 3 always_timeout (start 0)
      = (Inl Timeout, w) \<and> invocations w = 3"
    by (auto simp: o)
  from b retry_reraises [of 3 timeout_then_value_error 0 create_as_exceptions 0 1
      "ValueError ''bad''"]
  have "\<exists>w. inner_wrapper create_as_exceptions 0 3 timeout_then_value_error (start 0)
           = (Inl (ValueError ''bad''), w) \<and> invocations w = 1 + 1"
    by blast
  with first show ?thesis by (simp add: numeral_2_eq_2)
qed

section \<open>Create and create-as submission\<close>

text \<open>
  No method reads the attempt bound and the delay that the constructor stores: a client
  with other values of them submits in the same way.
\<close>

lemma request_settings_unused:
  "request ext (api\<lparr> api_max_retries := m, api_delay := d \<rparr>) endpoint method sql_string props s
     = request ext api endpoint method sql_string props s"
  by (simp add: request_def split: sum.splits)

lemma ksql_settings_unused:
  "ksql ext (api\<lparr> api_max_retries := m, api_delay := d \<rparr>) ksql_string props s
     = ksql ext api ksql_string props s"
  by (simp add: ksql_def request_settings_unused)

lemma create_as_settings_unused:
  "create_as ext (api\<lparr> api_max_retries := m, api_delay := d \<rparr>) a w = create_as ext api a w"
proof -
  have "create_as_body ext (api\<lparr> api_max_retries := m, api_delay := d \<rparr>) a
      = create_as_body ext api a"
    by (rule HOL.ext) (simp add: create_as_body_def ksql_settings_unused split: sum.splits)
  then show ?thesis by (simp add: create_as_def)
qed

text \<open>
  C7. The claim has the retry policy around create-as submission run with the attempt
  bound and the delay given at construction. The decorator is applied with its own
  defaults instead, 5 attempts and a delay of 1: on a network where every request times
  out, a client constructed for one attempt and no delay sends five requests and sleeps
  one second four times before the Timeout reaches the caller.
\<close>

theorem create_as_ignores_client_settings:
  "api_max_retries single_attempt_api = 1 \<and> api_delay single_attempt_api = 0 \<and>
   create_as (sample_externals (Inl Timeout)) single_attempt_api sample_args (start 0)
     = (Inl Timeout, \<lparr> op_state = 5, invocations = 5, slept = [1, 1, 1, 1] \<rparr>)"
  by code_simp

text \<open>
  The rest of C7 holds: plain create is not wrapped, so a Timeout leaves it after one
  request, and the wrapper of create-as catches Timeout and CreateError and nothing else.
\<close>

lemma create_not_retried:
  "create (sample_externals (Inl Timeout)) single_attempt_api ''stream'' ''s'' (JList []) ''topic''
     ''JSON'' 0 = (Inl Timeout, 1)"
  by code_simp

lemma create_as_exceptions_iff:
  "create_as_exceptions e \<longleftrightarrow> e = Timeout \<or> (\<exists>message. e = CreateError message)"
  by (cases e) (simp_all add: create_as_exceptions_def)

section \<open>Buffered and streaming calls\<close>

lemma str_contains_prefixed: "str_contains xs (ps @ xs)"
  using str_contains_append [of xs ps "[]"] by simp

text \<open>
  C8. Let the request of a buffered call come back with a response. If its status code
  is 200, the call returns what decoding the whole body as one JSON document gives. If
  not, the call raises ValueError (the spec's transport error) with a message made of the
  status code and of the body, as Python prints bytes.
\<close>

theorem ksql_status_code:
  assumes "request ext api ''ksql'' ''post'' ksql_string streams_properties s = (Inr r, s')"
  shows "(status_code r = 200 \<longrightarrow>
            ksql ext api ksql_string streams_properties s = (json_loads ext (content r), s')) \<and>
         (status_code r \<noteq> 200 \<longrightarrow>
            ksql ext api ksql_string streams_properties s
              = (Inl (ValueError (status_message (status_code r) (content r))), s') \<and>
            str_contains (str_int (status_code r)) (status_message (status_code r) (content r)) \<and>
            str_contains (repr_bytes (content r)) (status_message (status_code r) (content r)))"
proof -
  have "str_contains (str_int code) (status_message code body)" for code body
    unfolding status_message_def by (rule str_contains_append)
  moreover have "str_contains (repr_bytes body) (status_message code body)" for code body
  proof -
    have "status_message code body
        = (''Status Code: '' @ str_int code @ [CHR ''.'', CHR 0x0A] @ ''Message: '') @ repr_bytes body"
      by (simp add: status_message_def)
    then show ?thesis by (simp only: str_contains_prefixed)
  qed
  ultimately show ?thesis using assms by (simp add: ksql_def)
qed

theorem ksql_status_code_witness:
  "ksql (sample_externals (Inr (sample_response 200 doc_a1))) single_attempt_api ''LIST STREAMS''
     (JDict []) 0 = (Inr (JDict [(''a'', JInt 1)]), 1) \<and>
   ksql (sample_externals (Inr (sample_response 500 ''boom''))) single_attempt_api ''LIST STREAMS''
     (JDict []) 0
     = (Inl (ValueError (''Status Code: 500.'' @ [CHR 0x0A] @ ''Message: b'' @ [CHR 0x27] @ ''boom''
          @ [CHR 0x27])), 1)"
proof -
  have a: "request (sample_externals (Inr resp)) single_attempt_api ''ksql'' ''post''
      ''LIST STREAMS'' (JDict []) 0 = (Inr resp, 1)" for resp
    by (simp add: request_def validate_sql_string_def sample_externals_def)
  have m: "status_message 500 ''boom''
      = ''Status Code: 500.'' @ [CHR 0x0A] @ ''Message: b'' @ [CHR 0x27] @ ''boom'' @ [CHR 0x27]"
    by code_simp
  have l: "sample_loads doc_a1 = Inr (JDict [(''a'', JInt 1)])"
    by (simp add: sample_loads_def)
  from ksql_status_code [OF a, of "sample_response 200 doc_a1"]
       ksql_status_code [OF a, of "sample_response 500 ''boom''"] m l
  show ?thesis by (simp add: sample_response_def sample_externals_def)
qed

lemma query_rows_filter:
  "query_rows ext encoding chunks
     = rows_until_error (map (decode_row ext encoding)
         (filter (\<lambda>chunk. chunk \<noteq> [CHR 0x0A]) chunks))"
  by (induction chunks) (auto split: sum.splits prod.splits)

text \<open>
  C9. The rows the generator yields are the results of decoding and parsing the chunks
  that are not a bare newline, one row a chunk, in order, up to the first chunk that fails
  to decode or parse. In particular, where the two documents of the example decode and
  parse to \<open>{a: 1}\<close> and \<open>{a: 2}\<close>, the chunks newline, first document, newline, second
  document yield exactly these two rows.
\<close>

theorem query_rows_decodes_chunks:
  "query_rows ext encoding chunks
     = rows_until_error (map (decode_row ext encoding)
         (filter (\<lambda>chunk. chunk \<noteq> [CHR 0x0A]) chunks)) \<and>
   (decode_row ext encoding doc_a1 = Inr (JDict [(''a'', JInt 1)]) \<and>
    decode_row ext encoding doc_a2 = Inr (JDict [(''a'', JInt 2)]) \<longrightarrow>
    query_rows ext encoding [[CHR 0x0A], doc_a1, [CHR 0x0A], doc_a2]
      = ([JDict [(''a'', JInt 1)], JDict [(''a'', JInt 2)]], None))"
  by (simp add: query_rows_filter doc_a1_def doc_a2_def)

theorem query_rows_decodes_chunks_witness:
  "query_rows (sample_externals (Inl Timeout)) ''utf-8'' [[CHR 0x0A], doc_a1, [CHR 0x0A], doc_a2]
      = ([JDict [(''a'', JInt 1)], JDict [(''a'', JInt 2)]], None)"
proof -
  have "decode_row (sample_externals (Inl Timeout)) ''utf-8'' doc_a1 = Inr (JDict [(''a'', JInt 1)])"
    "decode_row (sample_externals (Inl Timeout)) ''utf-8'' doc_a2 = Inr (JDict [(''a'', JInt 2)])"
    by (simp_all add: decode_row_def bind_err_def sample_externals_def sample_decode_def
          sample_loads_def doc_a1_def doc_a2_def)
  with query_rows_decodes_chunks [of "sample_externals (Inl Timeout)" "''utf-8''"]
  show ?thesis by blast
qed

end
